theory Spec2Isabelle
  imports
    Complex_Main
    "HOL-Library.Char_ord"
    "HOL-Library.List_Lexorder"
    "HOL-Library.Product_Lexorder"
    "HOL-Library.Multiset"
begin

section \<open>The record store (class DatabaseManager)\<close>

text \<open>
  The two SQLite tables are modelled as lists of rows in insertion order. Text values are
  strings compared bytewise (SQLite's default BINARY collation), REAL values are the real
  numbers the stored binary64 values denote, and the AUTOINCREMENT counter of table
  \<open>marks\<close> is part of the state. The clock (\<open>datetime.now().strftime("%Y-%m-%d")\<close>)
  is the explicit argument \<open>today\<close>. Faults of the file system (an unreadable or full
  disk) are not part of the model.
\<close>

record student =
  roll_no :: string
  name :: string
  age :: int
  class_name :: string
  created_date :: string

record mark_entry =
  entry_id :: nat
  entry_roll_no :: string
  subject :: string
  marks :: real
  max_marks :: real
  exam_date :: string

record database =
  students_tbl :: "student list"
  marks_tbl :: "mark_entry list"
  marks_seq :: nat

text \<open>
  Every method of \<open>DatabaseManager\<close> opens a connection of its own and closes it before it
  returns, with one exception: \<open>add_student\<close> returns from its handler of
  \<open>sqlite3.IntegrityError\<close> without closing. The connection it leaves behind has begun the
  transaction of the rejected INSERT and keeps the write lock of the file until Python's
  garbage collector finalises it. The state of a manager is therefore the content of the
  tables together with that lock. The exceptions that leave \<open>add_student\<close> are values of
  \<open>error\<close>.
\<close>

datatype error = OperationalError | OverflowError

record manager =
  tables :: database
  write_lock_leaked :: bool

text \<open>\<open>create_tables\<close> on a fresh file: both tables exist and are empty.\<close>

definition create_tables :: database where
  "create_tables = \<lparr>students_tbl = [], marks_tbl = [], marks_seq = 0\<rparr>"

text \<open>\<open>DatabaseManager()\<close> on a fresh file.\<close>

definition database_manager :: manager where
  "database_manager = \<lparr>tables = create_tables, write_lock_leaked = False\<rparr>"

text \<open>
  \<open>add_student\<close>. Binding an age outside SQLite's 64-bit integers raises OverflowError
  before the statement runs. While a leaked connection holds the write lock the INSERT
  raises OperationalError (database is locked), whatever the roll number. Otherwise the
  INSERT violates the primary key exactly when the roll number is already in the table: the
  handler of \<open>sqlite3.IntegrityError\<close> then returns False, nothing has been written, and
  the connection is left open. Only the path of a successful INSERT commits and closes.
\<close>

definition add_student ::
  "string \<Rightarrow> manager \<Rightarrow> string \<Rightarrow> string \<Rightarrow> int \<Rightarrow> string \<Rightarrow> (error + bool) \<times> manager" where
  "add_student today m r n a c =
     (if a < - (2 ^ 63) \<or> 2 ^ 63 \<le> a then (Inl OverflowError, m)
      else if write_lock_leaked m then (Inl OperationalError, m)
      else if r \<in> set (map roll_no (students_tbl (tables m)))
        then (Inr False, m\<lparr>write_lock_leaked := True\<rparr>)
      else (Inr True, m\<lparr>tables := (tables m)\<lparr>students_tbl := students_tbl (tables m) @
              [\<lparr>roll_no = r, name = n, age = a, class_name = c, created_date = today\<rparr>]\<rparr>\<rparr>))"

text \<open>
  A run of the garbage collector, which the interpreter starts on its own at some later
  allocation: the leaked connection is finalised, its open transaction rolled back, and the
  lock released.
\<close>

definition collect_garbage :: "manager \<Rightarrow> manager" where
  "collect_garbage m = m\<lparr>write_lock_leaked := False\<rparr>"

text \<open>
  The other methods are modelled on the tables, for a call whose statement runs: the queries
  read also while the lock is held, whereas the writes of \<open>add_marks\<close> and
  \<open>delete_student\<close> raise OperationalError then, like \<open>add_student\<close>.

  \<open>add_marks\<close>: \<open>exam_date\<close> defaults to today; the row gets the next id and the column
  default \<open>max_marks = 100\<close>. SQLite does not enforce the FOREIGN KEY clause (the
  connection never turns \<open>foreign_keys\<close> on), so no lookup of the roll number happens.
\<close>

definition add_marks ::
  "string \<Rightarrow> database \<Rightarrow> string \<Rightarrow> string \<Rightarrow> real \<Rightarrow> string option \<Rightarrow> bool \<times> database" where
  "add_marks today db r s m d =
     (let exam = (case d of None \<Rightarrow> today | Some e \<Rightarrow> e);
          i = Suc (marks_seq db)
      in (True, db\<lparr>marks_tbl := marks_tbl db @
              [\<lparr>entry_id = i, entry_roll_no = r, subject = s, marks = m,
                max_marks = 100, exam_date = exam\<rparr>],
            marks_seq := i\<rparr>))"

text \<open>\<open>SELECT * FROM students ORDER BY roll_no\<close>\<close>

definition get_all_students :: "database \<Rightarrow> student list" where
  "get_all_students db = sort_key roll_no (students_tbl db)"

text \<open>\<open>SELECT subject, marks, exam_date FROM marks WHERE roll_no = ? ORDER BY subject\<close>\<close>

definition get_student_marks :: "database \<Rightarrow> string \<Rightarrow> (string \<times> real \<times> string) list" where
  "get_student_marks db r =
     sort_key fst
       (map (\<lambda>m. (subject m, marks m, exam_date m))
          (filter (\<lambda>m. entry_roll_no m = r) (marks_tbl db)))"

text \<open>
  \<open>SELECT s.roll_no, s.name, m.subject, m.marks FROM students s JOIN marks m
  ON s.roll_no = m.roll_no ORDER BY s.roll_no, m.subject\<close>
\<close>

definition get_all_marks :: "database \<Rightarrow> (string \<times> string \<times> string \<times> real) list" where
  "get_all_marks db =
     sort_key (\<lambda>(r, n, s, m). (r, s))
       (concat (map (\<lambda>s. map (\<lambda>m. (roll_no s, name s, subject m, marks m))
                              (filter (\<lambda>m. roll_no s = entry_roll_no m) (marks_tbl db)))
                    (students_tbl db)))"


section \<open>Grades\<close>

text \<open>
  \<open>calculate_grade\<close>: the chain of \<open>if\<close>/\<open>elif\<close> of the source, in its order. The
  average is the real number the float denotes.
\<close>

definition calculate_grade :: "real \<Rightarrow> string" where
  "calculate_grade avg =
     (if avg \<ge> 90 then ''A+''
      else if avg \<ge> 80 then ''A''
      else if avg \<ge> 70 then ''B''
      else if avg \<ge> 60 then ''C''
      else if avg \<ge> 50 then ''D''
      else ''F'')"

section \<open>Floating-point arithmetic of the reporting code\<close>

text \<open>
  Marks are binary64 values (Python floats, SQLite REAL, numpy float64). A finite binary64
  value is modelled by the real number it denotes, and every arithmetic operation of numpy
  returns the rounding of the exact result. The rounding is a parameter of the reporting
  functions, so that their structure is stated once: \<open>binary64\<close>, the arithmetic the
  program runs, is IEEE 754 round-to-nearest, ties-to-even, with 53 significant bits and
  gradual underflow below \<open>2 powi (- 1022)\<close>. NaN, infinities and overflow (results of
  magnitude \<open>2 powi 1024\<close> and above) are not represented.
\<close>

type_synonym rounding = "real \<Rightarrow> real"

definition round_half_even :: "real \<Rightarrow> int" where
  "round_half_even t =
     (let n = \<lfloor>t\<rfloor>; r = t - of_int n
      in if r < 1 / 2 then n else if 1 / 2 < r then n + 1 else if even n then n else n + 1)"

text \<open>The binary exponent of a positive value: \<open>expo_up\<close> for values from 1 on,
  \<open>expo_down\<close> below 1, where it stops at the exponent of the subnormal numbers.\<close>

function expo_up :: "real \<Rightarrow> int" where
  "expo_up x = (if x < 2 then 0 else 1 + expo_up (x / 2))"
  by pat_completeness auto
termination
proof (relation "measure (\<lambda>x. nat \<lfloor>x\<rfloor>)")
  show "wf (measure (\<lambda>x::real. nat \<lfloor>x\<rfloor>))" by simp
next
  fix x :: real
  assume "\<not> x < 2"
  then have "x / 2 \<le> x - 1" by simp
  then have "\<lfloor>x / 2\<rfloor> \<le> \<lfloor>x - 1\<rfloor>" by (rule floor_mono)
  moreover have "0 < \<lfloor>x\<rfloor>" using \<open>\<not> x < 2\<close> by simp
  ultimately show "(x / 2, x) \<in> measure (\<lambda>x. nat \<lfloor>x\<rfloor>)" by simp
qed

function expo_down :: "int \<Rightarrow> real \<Rightarrow> int" where
  "expo_down k x = (if 1 \<le> x \<or> k \<le> - 1022 then k else expo_down (k - 1) (2 * x))"
  by pat_completeness auto
termination
  by (relation "measure (\<lambda>(k, x). nat (k + 1022))") auto

definition expo :: "real \<Rightarrow> int" where
  "expo a = (if 1 \<le> a then expo_up a else expo_down 0 a)"

definition ulp :: "real \<Rightarrow> real" where
  "ulp x = 2 powi (expo \<bar>x\<bar> - 52)"

definition binary64 :: rounding where
  "binary64 x = (if x = 0 then 0 else of_int (round_half_even (x / ulp x)) * ulp x)"

subsection \<open>numpy reductions\<close>

text \<open>
  numpy is a library the program calls; its functions are modelled after the algorithms numpy
  runs on a one-dimensional float64 array. \<open>np.sum\<close> and the sums inside \<open>np.mean\<close> and
  \<open>np.std\<close> are numpy's add-reduction: the accumulator starts at 0 and receives the
  pairwise sum of the array, which adds fewer than 8 elements from left to right, up to 128
  elements in eight interleaved accumulators, and longer arrays by halves. The functions are
  called on non-empty arrays only: \<open>generate_analysis\<close> returns before them when there is no
  row, and every group of marks is created with its first element.
\<close>

function unrolled_add :: "rounding \<Rightarrow> real list \<Rightarrow> real list \<Rightarrow> real list \<times> real list" where
  "unrolled_add rnd r a =
     (if length a < 8 then (r, a)
      else unrolled_add rnd (map2 (\<lambda>p q. rnd (p + q)) r (take 8 a)) (drop 8 a))"
  by pat_completeness auto
termination
  by (relation "measure (\<lambda>(rnd, r, a). length a)") auto

function pairwise_sum :: "rounding \<Rightarrow> real list \<Rightarrow> real" where
  "pairwise_sum rnd a =
     (if length a < 8 then foldl (\<lambda>res x. rnd (res + x)) 0 a
      else if length a \<le> 128 then
        (case unrolled_add rnd (take 8 a) (drop 8 a) of
           (r, rest) \<Rightarrow>
             foldl (\<lambda>res x. rnd (res + x))
               (rnd (rnd (rnd (r ! 0 + r ! 1) + rnd (r ! 2 + r ! 3))
                     + rnd (rnd (r ! 4 + r ! 5) + rnd (r ! 6 + r ! 7))))
               rest)
      else
        rnd (pairwise_sum rnd (take (length a div 2 - length a div 2 mod 8) a)
             + pairwise_sum rnd (drop (length a div 2 - length a div 2 mod 8) a)))"
  by pat_completeness auto
termination
  by (relation "measure (\<lambda>(rnd, a). length a)") auto

definition umr_sum :: "rounding \<Rightarrow> real list \<Rightarrow> real" where
  "umr_sum rnd a = rnd (0 + pairwise_sum rnd a)"

text \<open>\<open>np.mean\<close>: the sum divided by the number of elements.\<close>

definition np_mean :: "rounding \<Rightarrow> real list \<Rightarrow> real" where
  "np_mean rnd a = rnd (umr_sum rnd a / real (length a))"

text \<open>\<open>np.std\<close> with its default \<open>ddof = 0\<close>: the square root of the mean of the squared
  deviations from the mean.\<close>

definition np_std :: "rounding \<Rightarrow> real list \<Rightarrow> real" where
  "np_std rnd a =
     (let arrmean = rnd (umr_sum rnd a / real (length a));
          x = map (\<lambda>v. rnd (v - arrmean)) a;
          x2 = map (\<lambda>d. rnd (d * d)) x;
          ret = rnd (umr_sum rnd x2 / real (length a))
      in rnd (sqrt ret))"

definition np_min :: "real list \<Rightarrow> real" where
  "np_min a = Min (set a)"

definition np_max :: "real list \<Rightarrow> real" where
  "np_max a = Max (set a)"

text \<open>\<open>np.median\<close>: the mean of the middle element, or of the two middle elements, of the
  sorted array.\<close>

definition np_median :: "rounding \<Rightarrow> real list \<Rightarrow> real" where
  "np_median rnd a =
     (let s = sort a; sz = length a; index = sz div 2
      in if sz mod 2 = 0 then np_mean rnd (take 2 (drop (index - 1) s))
         else np_mean rnd (take 1 (drop index s)))"

text \<open>
  \<open>np.percentile\<close> with its default method: the quantile is \<open>p / 100\<close>, the virtual index
  \<open>(n - 1) * q\<close>; the elements at its floor and at the next index are interpolated with the
  fractional part as weight. At or beyond the last index both indices are \<open>-1\<close> (the last
  element). \<open>py_index\<close> is Python's indexing, which counts a negative index from the end.
\<close>

definition py_index :: "real list \<Rightarrow> int \<Rightarrow> real" where
  "py_index s i = (if i < 0 then s ! nat (int (length s) + i) else s ! nat i)"

definition lerp :: "rounding \<Rightarrow> real \<Rightarrow> real \<Rightarrow> real \<Rightarrow> real" where
  "lerp rnd a b t =
     (let diff_b_a = rnd (b - a)
      in if t \<ge> 1 / 2 then rnd (b - rnd (diff_b_a * rnd (1 - t)))
         else rnd (a + rnd (diff_b_a * t)))"

definition np_percentile :: "rounding \<Rightarrow> real list \<Rightarrow> real \<Rightarrow> real" where
  "np_percentile rnd a p =
     (let q = rnd (p / 100);
          n = length a;
          virtual_index = rnd (real (n - 1) * q);
          previous_index = (if virtual_index \<ge> real (n - 1) then - 1
                            else if virtual_index < 0 then 0 else \<lfloor>virtual_index\<rfloor>);
          next_index = (if virtual_index \<ge> real (n - 1) then - 1
                        else if virtual_index < 0 then 0 else \<lfloor>virtual_index\<rfloor> + 1);
          s = sort a;
          gamma = rnd (virtual_index - of_int previous_index)
      in lerp rnd (py_index s previous_index) (py_index s next_index) gamma)"



section \<open>The reporting code (class StudentPerformanceAnalyzer)\<close>

text \<open>
  Python dictionaries keep their keys in insertion order and are modelled as association
  lists. \<open>setdefault_append\<close> is the idiom
  \<open>if k not in d: d[k] = []\<close> followed by \<open>d[k].append(v)\<close>.
\<close>

fun setdefault_append :: "('k \<times> 'v list) list \<Rightarrow> 'k \<Rightarrow> 'v \<Rightarrow> ('k \<times> 'v list) list" where
  "setdefault_append [] k v = [(k, [v])]"
| "setdefault_append ((k', vs) # d) k v =
     (if k' = k then (k', vs @ [v]) # d else (k', vs) # setdefault_append d k v)"

record student_info =
  info_name :: string
  info_marks :: "real list"
  info_subjects :: "string list"

text \<open>The body of the first loop of \<open>generate_analysis\<close>: the entry of a roll number is
  created at its first row, with the name of that row.\<close>

fun collect_row ::
  "(string \<times> student_info) list \<Rightarrow> string \<times> string \<times> string \<times> real \<Rightarrow> (string \<times> student_info) list" where
  "collect_row [] (r, n, s, m) = [(r, \<lparr>info_name = n, info_marks = [m], info_subjects = [s]\<rparr>)]"
| "collect_row ((k, i) # d) (r, n, s, m) =
     (if k = r
      then (k, i\<lparr>info_marks := info_marks i @ [m], info_subjects := info_subjects i @ [s]\<rparr>) # d
      else (k, i) # collect_row d (r, n, s, m))"

record overall_statistics =
  total_records :: nat
  total_students :: nat
  mean :: real
  median :: real
  standard_deviation :: real
  minimum :: real
  maximum :: real
  percentile_25 :: real
  percentile_75 :: real

record student_line =
  line_roll_no :: string
  line_name :: string
  line_avg :: real
  line_total :: real
  line_grade :: string

record subject_line =
  line_subject :: string
  line_mean :: real
  line_std_dev :: real
  line_min :: real
  line_max :: real

record report =
  overall :: overall_statistics
  student_wise :: "student_line list"
  subject_wise :: "subject_line list"

text \<open>What the analysis text widget shows. The report carries the numbers that the source
  formats into the text (the formatting to two decimals is not modelled).\<close>

datatype analysis_output = Blank | Notice string | Report report

type_synonym joined_row = "string \<times> string \<times> string \<times> real"

definition overall_marks_statistics ::
  "rounding \<Rightarrow> joined_row list \<Rightarrow> (string \<times> student_info) list \<Rightarrow> overall_statistics" where
  "overall_marks_statistics rnd all_marks data =
     (let all_marks_array = map (\<lambda>(r, n, s, mark). mark) all_marks
      in \<lparr>total_records = length all_marks,
          total_students = length data,
          mean = np_mean rnd all_marks_array,
          median = np_median rnd all_marks_array,
          standard_deviation = np_std rnd all_marks_array,
          minimum = np_min all_marks_array,
          maximum = np_max all_marks_array,
          percentile_25 = np_percentile rnd all_marks_array 25,
          percentile_75 = np_percentile rnd all_marks_array 75\<rparr>)"

definition student_wise_performance ::
  "rounding \<Rightarrow> (string \<times> student_info) list \<Rightarrow> student_line list" where
  "student_wise_performance rnd data =
     map (\<lambda>(r, info).
            \<lparr>line_roll_no = r, line_name = info_name info,
             line_avg = np_mean rnd (info_marks info),
             line_total = umr_sum rnd (info_marks info),
             line_grade = calculate_grade (np_mean rnd (info_marks info))\<rparr>)
         (sort_key fst data)"

definition subject_wise_statistics :: "rounding \<Rightarrow> joined_row list \<Rightarrow> subject_line list" where
  "subject_wise_statistics rnd all_marks =
     (let subjects_data = foldl (\<lambda>d (r, n, s, m). setdefault_append d s m) [] all_marks
      in map (\<lambda>(s, marks_list).
                \<lparr>line_subject = s, line_mean = np_mean rnd marks_list,
                 line_std_dev = np_std rnd marks_list,
                 line_min = np_min marks_list, line_max = np_max marks_list\<rparr>)
             (sort_key fst subjects_data))"

text \<open>The five charts. A chart is modelled by the data handed to the plotting library; the
  heat map and the box plot hand the joined rows to pandas and seaborn as they are.\<close>

datatype chart =
    BarChart "string list" "real list"
  | PieChart "string list" "nat list"
  | Heatmap "joined_row list"
  | BoxPlot "joined_row list"
  | EmptyFigure

text \<open>
  \<open>info['name'][:10]\<close> keeps the first ten characters of the name. On the UTF-8 bytes that
  model a string these are the bytes before the eleventh byte that starts a character (a
  byte from 128 to 191 continues one).
\<close>

fun take_characters :: "nat \<Rightarrow> string \<Rightarrow> string" where
  "take_characters n [] = []"
| "take_characters n (c # cs) =
     (if 128 \<le> (of_char c :: nat) \<and> (of_char c :: nat) < 192 then c # take_characters n cs
      else (case n of 0 \<Rightarrow> [] | Suc k \<Rightarrow> c # take_characters k cs))"

definition plot_student_performance :: "rounding \<Rightarrow> joined_row list \<Rightarrow> chart" where
  "plot_student_performance rnd all_marks =
     (let data = foldl collect_row [] all_marks;
          sorted_items = sort_key fst data
      in BarChart (map (\<lambda>(r, info). r @ [CHR 0x0A] @ take_characters 10 (info_name info)) sorted_items)
                  (map (\<lambda>(r, info). np_mean rnd (info_marks info)) sorted_items))"

definition plot_subject_average :: "rounding \<Rightarrow> joined_row list \<Rightarrow> chart" where
  "plot_subject_average rnd all_marks =
     (let subjects_data = foldl (\<lambda>d (r, n, s, m). setdefault_append d s m) [] all_marks
      in BarChart (map fst subjects_data) (map (\<lambda>(s, ml). np_mean rnd ml) subjects_data))"

definition count_grade :: "(string \<times> nat) list \<Rightarrow> string \<Rightarrow> (string \<times> nat) list" where
  "count_grade grades g = map (\<lambda>(k, v). if k = g then (k, v + 1) else (k, v)) grades"

definition plot_grade_distribution :: "rounding \<Rightarrow> joined_row list \<Rightarrow> chart" where
  "plot_grade_distribution rnd all_marks =
     (let data = foldl (\<lambda>d (r, n, s, m). setdefault_append d r m) [] all_marks;
          grades = foldl (\<lambda>grades (r, marks_list).
                            count_grade grades (calculate_grade (np_mean rnd marks_list)))
                     [(''A+'', 0), (''A'', 0), (''B'', 0), (''C'', 0), (''D'', 0), (''F'', 0)]
                     data
      in PieChart (map fst (filter (\<lambda>(k, v). v > 0) grades))
                  (filter (\<lambda>v. v > 0) (map snd grades)))"

text \<open>The state of the application the two reporting callbacks touch: the tables they read, the
  selected chart type, the analysis text, the widgets drawn in the chart frame, and the
  message boxes shown so far (kind, title, message).\<close>

record gui =
  db :: database
  chart_var :: string
  analysis_text :: analysis_output
  viz_canvas_frame :: "chart list"
  messagebox :: "(string \<times> string \<times> string) list"

definition generate_analysis :: "rounding \<Rightarrow> gui \<Rightarrow> gui" where
  "generate_analysis rnd g =
     (let all_marks = get_all_marks (db g)
      in if all_marks = [] then g\<lparr>analysis_text := Notice ''No data available for analysis!''\<rparr>
         else
           (let data = foldl collect_row [] all_marks
            in g\<lparr>analysis_text := Report
                  \<lparr>overall = overall_marks_statistics rnd all_marks data,
                   student_wise = student_wise_performance rnd data,
                   subject_wise = subject_wise_statistics rnd all_marks\<rparr>\<rparr>))"

definition generate_visualization :: "rounding \<Rightarrow> gui \<Rightarrow> gui" where
  "generate_visualization rnd g =
     (let g1 = g\<lparr>viz_canvas_frame := []\<rparr>;
          all_marks = get_all_marks (db g1)
      in if all_marks = []
         then g1\<lparr>messagebox := messagebox g1 @
                   [(''warning'', ''Warning'', ''No data available for visualization!'')]\<rparr>
         else
           (let chart_type = chart_var g1;
                fig = (if chart_type = ''Student Performance Bar Chart''
                         then plot_student_performance rnd all_marks
                       else if chart_type = ''Subject-wise Average''
                         then plot_subject_average rnd all_marks
                       else if chart_type = ''Grade Distribution''
                         then plot_grade_distribution rnd all_marks
                       else if chart_type = ''Performance Heatmap'' then Heatmap all_marks
                       else if chart_type = ''Box Plot by Subject'' then BoxPlot all_marks
                       else EmptyFigure)
            in g1\<lparr>viz_canvas_frame := [fig]\<rparr>))"

section \<open>Inputs of the examples\<close>

text \<open>The scenario of the specification: from an empty store, two students and four marks.\<close>

definition scenario_store :: "string \<Rightarrow> database" where
  "scenario_store today =
     (let m1 = snd (add_student today database_manager ''S1'' ''Asha'' 20 ''10A'');
          m2 = snd (add_student today m1 ''S2'' ''Ravi'' 21 ''10A'');
          d3 = snd (add_marks today (tables m2) ''S1'' ''Math'' 95 None);
          d4 = snd (add_marks today d3 ''S1'' ''Science'' 85 None);
          d5 = snd (add_marks today d4 ''S2'' ''Math'' 55 None)
      in snd (add_marks today d5 ''S2'' ''Science'' 45 None))"

text \<open>A student inserted into a new store, and the same roll number inserted again.\<close>

definition manager_after_insert :: manager where
  "manager_after_insert =
     snd (add_student ''2024-01-01'' database_manager ''S1'' ''Asha'' 20 ''10A'')"

definition manager_after_duplicate :: manager where
  "manager_after_duplicate =
     snd (add_student ''2024-01-02'' manager_after_insert ''S1'' ''Ravi'' 21 ''10B'')"

text \<open>The mark that the input \<open>99.9\<close> denotes (Python's \<open>float\<close> rounds the decimal to the
  nearest binary64 value), and the joined rows of one student with that mark in three
  subjects.\<close>

definition mark_99_9 :: real where
  "mark_99_9 = binary64 (999 / 10)"

definition rounding_rows :: "joined_row list" where
  "rounding_rows =
     [(''S1'', ''Asha'', ''Maths'', mark_99_9), (''S1'', ''Asha'', ''Physics'', mark_99_9),
      (''S1'', ''Asha'', ''Science'', mark_99_9)]"



section \<open>Properties\<close>

subsection \<open>Rounding to binary64\<close>

text \<open>The rounding is monotone and keeps the sign; these are the facts about it the
  properties of the statistics rest on.\<close>

declare expo_up.simps [simp del] expo_down.simps [simp del]
declare unrolled_add.simps [simp del] pairwise_sum.simps [simp del]

lemma round_half_even_bounds:
  "\<lfloor>t\<rfloor> \<le> round_half_even t" "round_half_even t \<le> \<lfloor>t\<rfloor> + 1"
  by (simp_all add: round_half_even_def Let_def)

lemma round_half_even_of_int [simp]: "round_half_even (of_int n) = n"
  by (simp add: round_half_even_def)

lemma round_half_even_mono:
  assumes "s \<le> t"
  shows "round_half_even s \<le> round_half_even t"
proof (cases "\<lfloor>s\<rfloor> < \<lfloor>t\<rfloor>")
  case True
  have "round_half_even s \<le> \<lfloor>s\<rfloor> + 1" by (rule round_half_even_bounds)
  also have "\<dots> \<le> \<lfloor>t\<rfloor>" using True by simp
  also have "\<dots> \<le> round_half_even t" by (rule round_half_even_bounds)
  finally show ?thesis .
next
  case False
  moreover have "\<lfloor>s\<rfloor> \<le> \<lfloor>t\<rfloor>" using assms by (rule floor_mono)
  ultimately have eq: "\<lfloor>s\<rfloor> = \<lfloor>t\<rfloor>" by simp
  have "s - of_int \<lfloor>t\<rfloor> \<le> t - of_int \<lfloor>t\<rfloor>" using assms by simp
  then show ?thesis
    unfolding round_half_even_def Let_def eq by (auto split: if_splits)
qed

lemma expo_up_bounds:
  "1 \<le> x \<Longrightarrow> 0 \<le> expo_up x \<and> 2 powi (expo_up x) \<le> x \<and> x < 2 powi (expo_up x + 1)"
proof (induction x rule: expo_up.induct)
  case (1 x)
  show ?case
  proof (cases "x < 2")
    case True
    with "1.prems" show ?thesis by (simp add: expo_up.simps [of x])
  next
    case False
    then have "1 \<le> x / 2" by simp
    from "1.IH" [OF False this]
    have ih: "0 \<le> expo_up (x / 2)" "2 powi (expo_up (x / 2)) \<le> x / 2"
      "x / 2 < 2 powi (expo_up (x / 2) + 1)" by simp_all
    have e: "expo_up x = 1 + expo_up (x / 2)" using False by (simp add: expo_up.simps [of x])
    show ?thesis using ih unfolding e
      by (simp add: power_int_add add.commute)
  qed
qed

lemma expo_down_bounds:
  "0 < x \<Longrightarrow> x < 2 \<Longrightarrow>
     expo_down k x \<le> k
     \<and> (- 1022 \<le> k \<longrightarrow> - 1022 \<le> expo_down k x)
     \<and> x * 2 powi (k - expo_down k x) < 2
     \<and> (- 1022 < expo_down k x \<longrightarrow> 1 \<le> x * 2 powi (k - expo_down k x))"
proof (induction k x rule: expo_down.induct)
  case (1 k x)
  show ?case
  proof (cases "1 \<le> x \<or> k \<le> - 1022")
    case True
    then have e: "expo_down k x = k" by (simp add: expo_down.simps [of k x])
    show ?thesis unfolding e using True "1.prems" by auto
  next
    case False
    then have e: "expo_down k x = expo_down (k - 1) (2 * x)"
      by (simp add: expo_down.simps [of k x])
    have p: "0 < 2 * x" "2 * x < 2" using False "1.prems" by simp_all
    note ih = "1.IH" [OF False p]
    have r: "2 * x * 2 powi (k - 1 - expo_down (k - 1) (2 * x))
               = x * 2 powi (k - expo_down (k - 1) (2 * x))"
      by (simp add: power_int_diff power_int_add)
    show ?thesis unfolding e using ih False unfolding r by auto
  qed
qed


lemma expo_pos:
  assumes "0 < a"
  shows expo_ge: "- 1022 \<le> expo a"
    and expo_upper: "a < 2 powi (expo a + 1)"
    and expo_lower: "- 1022 < expo a \<Longrightarrow> 2 powi (expo a) \<le> a"
proof -
  show "- 1022 \<le> expo a"
  proof (cases "1 \<le> a")
    case True
    then show ?thesis using expo_up_bounds [of a] by (simp add: expo_def)
  next
    case False
    then show ?thesis using expo_down_bounds [of a 0] assms by (simp add: expo_def)
  qed
  show "a < 2 powi (expo a + 1)"
  proof (cases "1 \<le> a")
    case True
    then show ?thesis using expo_up_bounds [of a] by (simp add: expo_def)
  next
    case False
    then have "a * 2 powi (- expo_down 0 a) < 2"
      using expo_down_bounds [of a 0] assms by simp
    then have "a < 2 * 2 powi (expo_down 0 a)"
      by (simp add: power_int_minus field_simps)
    then show ?thesis using False by (simp add: expo_def power_int_add mult.commute)
  qed
  show "2 powi (expo a) \<le> a" if "- 1022 < expo a"
  proof (cases "1 \<le> a")
    case True
    then show ?thesis using expo_up_bounds [of a] by (simp add: expo_def)
  next
    case False
    then have "1 \<le> a * 2 powi (- expo_down 0 a)"
      using expo_down_bounds [of a 0] assms that by (simp add: expo_def)
    then show ?thesis using False
      by (simp add: expo_def power_int_minus field_simps)
  qed
qed

lemma expo_mono:
  assumes "0 < a" "a \<le> b"
  shows "expo a \<le> expo b"
proof (rule ccontr)
  assume "\<not> expo a \<le> expo b"
  then have lt: "expo b + 1 \<le> expo a" by simp
  have "0 < b" using assms by simp
  then have "- 1022 \<le> expo b" by (rule expo_ge)
  then have "- 1022 < expo a" using lt by simp
  then have "2 powi (expo a) \<le> a" by (rule expo_lower [OF assms(1)])
  also have "a \<le> b" by fact
  also have "b < 2 powi (expo b + 1)" by (rule expo_upper [OF \<open>0 < b\<close>])
  also have "(2::real) powi (expo b + 1) \<le> 2 powi (expo a)"
    using lt by (intro power_int_increasing) simp_all
  finally show False by simp
qed

lemma ulp_pos [simp]: "0 < ulp x"
  by (simp add: ulp_def)

lemma ulp_nonneg [simp]: "0 \<le> ulp x"
  by (simp add: ulp_def)

lemma binary64_ulp: "x \<noteq> 0 \<Longrightarrow> binary64 x = of_int (round_half_even (x / ulp x)) * ulp x"
  by (simp add: binary64_def)

lemma binary64_nonneg: "0 \<le> x \<Longrightarrow> 0 \<le> binary64 x"
proof (cases "x = 0")
  case True
  then show ?thesis by (simp add: binary64_def)
next
  case False
  assume "0 \<le> x"
  then have "0 \<le> x / ulp x" by (intro divide_nonneg_pos ulp_pos)
  then have "round_half_even 0 \<le> round_half_even (x / ulp x)" by (rule round_half_even_mono)
  then have "0 \<le> round_half_even (x / ulp x)" using round_half_even_of_int [of 0] by simp
  then show ?thesis using False by (simp add: binary64_ulp)
qed

lemma binary64_nonpos: "x \<le> 0 \<Longrightarrow> binary64 x \<le> 0"
proof (cases "x = 0")
  case True
  then show ?thesis by (simp add: binary64_def)
next
  case False
  assume "x \<le> 0"
  then have "x / ulp x \<le> 0" by (intro divide_nonpos_pos ulp_pos)
  then have "round_half_even (x / ulp x) \<le> round_half_even 0" by (rule round_half_even_mono)
  then have "round_half_even (x / ulp x) \<le> 0" using round_half_even_of_int [of 0] by simp
  then have "real_of_int (round_half_even (x / ulp x)) \<le> 0" by simp
  then have "real_of_int (round_half_even (x / ulp x)) * ulp x \<le> 0"
    by (intro mult_nonpos_nonneg less_imp_le [OF ulp_pos])
  then show ?thesis using False by (simp add: binary64_ulp)
qed

lemma ulp_times:
  "ulp x * 2 ^ 52 = 2 powi (expo \<bar>x\<bar>)"
  "ulp x * 2 ^ 53 = 2 powi (expo \<bar>x\<bar> + 1)"
proof -
  have "(2::real) powi (expo \<bar>x\<bar> - 52 + 52) = 2 powi (expo \<bar>x\<bar> - 52) * 2 powi 52"
    by (rule power_int_add) simp
  then show "ulp x * 2 ^ 52 = 2 powi (expo \<bar>x\<bar>)" by (simp add: ulp_def)
  have "(2::real) powi (expo \<bar>x\<bar> - 52 + 53) = 2 powi (expo \<bar>x\<bar> - 52) * 2 powi 53"
    by (rule power_int_add) simp
  moreover have "expo \<bar>x\<bar> - 52 + 53 = expo \<bar>x\<bar> + 1" by simp
  ultimately show "ulp x * 2 ^ 53 = 2 powi (expo \<bar>x\<bar> + 1)" by (simp add: ulp_def)
qed

lemma binary64_le_binade:
  assumes "0 < x"
  shows "binary64 x \<le> 2 powi (expo x + 1)"
proof -
  have "x < 2 powi (expo x + 1)" by (rule expo_upper [OF assms])
  then have "x \<le> ulp x * 2 ^ 53" using assms by (simp only: ulp_times abs_of_pos)
  then have "x / ulp x \<le> of_int (2 ^ 53)" by (simp add: field_simps)
  then have "round_half_even (x / ulp x) \<le> round_half_even (of_int (2 ^ 53))"
    by (rule round_half_even_mono)
  then have "round_half_even (x / ulp x) \<le> 2 ^ 53" by (simp only: round_half_even_of_int)
  then have "real_of_int (round_half_even (x / ulp x)) \<le> real_of_int (2 ^ 53)"
    by (simp only: of_int_le_iff)
  then have "of_int (round_half_even (x / ulp x)) * ulp x \<le> of_int (2 ^ 53) * ulp x"
    by (intro mult_right_mono) simp_all
  also have "of_int (2 ^ 53) * ulp x = 2 powi (expo x + 1)"
    using ulp_times(2) [of x] assms by (simp add: mult.commute)
  finally show ?thesis using assms by (simp add: binary64_ulp)
qed

lemma binary64_ge_binade:
  assumes "0 < x" "- 1022 < expo x"
  shows "2 powi (expo x) \<le> binary64 x"
proof -
  have "2 powi (expo x) \<le> x" by (rule expo_lower [OF assms])
  then have "ulp x * 2 ^ 52 \<le> x" using assms by (simp only: ulp_times abs_of_pos)
  then have "of_int (2 ^ 52) \<le> x / ulp x" by (simp add: field_simps)
  then have "round_half_even (of_int (2 ^ 52)) \<le> round_half_even (x / ulp x)"
    by (rule round_half_even_mono)
  then have "2 ^ 52 \<le> round_half_even (x / ulp x)" by (simp only: round_half_even_of_int)
  then have "real_of_int (2 ^ 52) \<le> real_of_int (round_half_even (x / ulp x))"
    by (simp only: of_int_le_iff)
  then have le: "of_int (2 ^ 52) * ulp x \<le> of_int (round_half_even (x / ulp x)) * ulp x"
    by (intro mult_right_mono) simp_all
  have "2 powi (expo x) = of_int (2 ^ 52) * ulp x"
    using ulp_times(1) [of x] assms by (simp add: mult.commute)
  also note le
  finally show ?thesis using assms by (simp add: binary64_ulp)
qed

lemma binary64_ge_neg_binade:
  assumes "x < 0"
  shows "- (2 powi (expo \<bar>x\<bar> + 1)) \<le> binary64 x"
proof -
  have "\<bar>x\<bar> < 2 powi (expo \<bar>x\<bar> + 1)" using assms by (intro expo_upper) simp
  then have "- (ulp x * 2 ^ 53) \<le> x" using assms by (simp only: ulp_times)
  then have "of_int (- (2 ^ 53)) \<le> x / ulp x" by (simp add: field_simps)
  then have "round_half_even (of_int (- (2 ^ 53))) \<le> round_half_even (x / ulp x)"
    by (rule round_half_even_mono)
  then have "- (2 ^ 53) \<le> round_half_even (x / ulp x)" by (simp only: round_half_even_of_int)
  then have "real_of_int (- (2 ^ 53)) \<le> real_of_int (round_half_even (x / ulp x))"
    by (simp only: of_int_le_iff)
  then have le: "of_int (- (2 ^ 53)) * ulp x \<le> of_int (round_half_even (x / ulp x)) * ulp x"
    by (intro mult_right_mono) simp_all
  have "- (2 powi (expo \<bar>x\<bar> + 1)) = of_int (- (2 ^ 53)) * ulp x"
    using ulp_times(2) [of x] by (simp add: mult.commute)
  also note le
  finally show ?thesis using assms by (simp add: binary64_ulp)
qed

lemma binary64_le_neg_binade:
  assumes "x < 0" "- 1022 < expo \<bar>x\<bar>"
  shows "binary64 x \<le> - (2 powi (expo \<bar>x\<bar>))"
proof -
  have "2 powi (expo \<bar>x\<bar>) \<le> \<bar>x\<bar>" using assms by (intro expo_lower) simp_all
  then have "x \<le> - (ulp x * 2 ^ 52)" using assms by (simp only: ulp_times)
  then have "x / ulp x \<le> of_int (- (2 ^ 52))" by (simp add: field_simps)
  then have "round_half_even (x / ulp x) \<le> round_half_even (of_int (- (2 ^ 52)))"
    by (rule round_half_even_mono)
  then have "round_half_even (x / ulp x) \<le> - (2 ^ 52)" by (simp only: round_half_even_of_int)
  then have "real_of_int (round_half_even (x / ulp x)) \<le> real_of_int (- (2 ^ 52))"
    by (simp only: of_int_le_iff)
  then have "of_int (round_half_even (x / ulp x)) * ulp x \<le> of_int (- (2 ^ 52)) * ulp x"
    by (intro mult_right_mono) simp_all
  also have "of_int (- (2 ^ 52)) * ulp x = - (2 powi (expo \<bar>x\<bar>))"
    using ulp_times(1) [of x] by (simp add: mult.commute)
  finally show ?thesis using assms by (simp add: binary64_ulp)
qed

lemma binary64_mono:
  assumes "x \<le> y"
  shows "binary64 x \<le> binary64 y"
proof -
  consider "x \<le> 0" "0 \<le> y" | "0 < x" | "y < 0" using assms by linarith
  then show ?thesis
  proof cases
    case 1
    then show ?thesis using binary64_nonpos [of x] binary64_nonneg [of y] by simp
  next
    case 2
    then have y: "0 < y" using assms by simp
    have le: "expo x \<le> expo y" using 2 assms by (rule expo_mono)
    show ?thesis
    proof (cases "expo x = expo y")
      case True
      then have u: "ulp y = ulp x" using 2 y by (simp add: ulp_def)
      have "x / ulp x \<le> y / ulp x" using assms by (simp add: divide_right_mono)
      then have "round_half_even (x / ulp x) \<le> round_half_even (y / ulp x)"
        by (rule round_half_even_mono)
      then have "real_of_int (round_half_even (x / ulp x)) * ulp x
                   \<le> real_of_int (round_half_even (y / ulp x)) * ulp x"
        by (intro mult_right_mono) simp_all
      then show ?thesis using 2 y by (simp add: binary64_ulp u)
    next
      case False
      then have lt: "expo x + 1 \<le> expo y" using le by simp
      have "- 1022 \<le> expo x" using 2 by (rule expo_ge)
      then have n: "- 1022 < expo y" using lt by simp
      have "binary64 x \<le> 2 powi (expo x + 1)" using 2 by (rule binary64_le_binade)
      also have "(2::real) powi (expo x + 1) \<le> 2 powi (expo y)"
        using lt by (intro power_int_increasing) simp_all
      also have "2 powi (expo y) \<le> binary64 y" using y n by (rule binary64_ge_binade)
      finally show ?thesis .
    qed
  next
    case 3
    then have x: "x < 0" using assms by simp
    have le: "expo \<bar>y\<bar> \<le> expo \<bar>x\<bar>" using 3 assms by (intro expo_mono) simp_all
    show ?thesis
    proof (cases "expo \<bar>y\<bar> = expo \<bar>x\<bar>")
      case True
      then have u: "ulp y = ulp x" by (simp add: ulp_def)
      have "x / ulp x \<le> y / ulp x" using assms by (simp add: divide_right_mono)
      then have "round_half_even (x / ulp x) \<le> round_half_even (y / ulp x)"
        by (rule round_half_even_mono)
      then have "real_of_int (round_half_even (x / ulp x)) * ulp x
                   \<le> real_of_int (round_half_even (y / ulp x)) * ulp x"
        by (intro mult_right_mono) simp_all
      then show ?thesis using 3 x by (simp add: binary64_ulp u)
    next
      case False
      then have lt: "expo \<bar>y\<bar> + 1 \<le> expo \<bar>x\<bar>" using le by simp
      have "- 1022 \<le> expo \<bar>y\<bar>" using 3 by (intro expo_ge) simp
      then have n: "- 1022 < expo \<bar>x\<bar>" using lt by simp
      have "binary64 x \<le> - (2 powi (expo \<bar>x\<bar>))" using x n by (rule binary64_le_neg_binade)
      also have "- ((2::real) powi (expo \<bar>x\<bar>)) \<le> - (2 powi (expo \<bar>y\<bar> + 1))"
        using lt by (simp add: power_int_increasing)
      also have "- (2 powi (expo \<bar>y\<bar> + 1)) \<le> binary64 y" using 3 by (rule binary64_ge_neg_binade)
      finally show ?thesis .
    qed
  qed
qed


subsection \<open>Sums, means and deviations\<close>

lemma foldl_add_nonneg:
  fixes rnd :: rounding
  shows "\<forall>x. 0 \<le> x \<longrightarrow> 0 \<le> rnd x \<Longrightarrow> 0 \<le> acc \<Longrightarrow> \<forall>x \<in> set a. 0 \<le> x \<Longrightarrow>
           0 \<le> foldl (\<lambda>res x. rnd (res + x)) acc a"
proof (induction a arbitrary: acc)
  case Nil
  then show ?case by simp
next
  case (Cons x a)
  have "0 \<le> rnd (acc + x)" using Cons.prems by simp
  then show ?case using Cons by simp
qed

lemma unrolled_add_nonneg:
  "\<forall>x. 0 \<le> x \<longrightarrow> 0 \<le> rnd x \<Longrightarrow> length r = 8 \<Longrightarrow> \<forall>x \<in> set r. 0 \<le> x \<Longrightarrow>
   \<forall>x \<in> set a. 0 \<le> x \<Longrightarrow>
     length (fst (unrolled_add rnd r a)) = 8
     \<and> (\<forall>x \<in> set (fst (unrolled_add rnd r a)). 0 \<le> x)
     \<and> (\<forall>x \<in> set (snd (unrolled_add rnd r a)). 0 \<le> x)"
proof (induction rnd r a rule: unrolled_add.induct)
  case (1 rnd r a)
  show ?case
  proof (cases "length a < 8")
    case True
    then show ?thesis using "1.prems" by (simp add: unrolled_add.simps [of rnd r a])
  next
    case False
    let ?r = "map2 (\<lambda>p q. rnd (p + q)) r (take 8 a)"
    have len: "length ?r = 8" using False "1.prems"(2) by simp
    have "0 \<le> rnd (p + q)" if "(p, q) \<in> set (zip r (take 8 a))" for p q
    proof -
      have "p \<in> set r" "q \<in> set (take 8 a)" using that by (auto dest: set_zip_leftD set_zip_rightD)
      then have "0 \<le> p" "0 \<le> q" using "1.prems" by (auto dest: in_set_takeD)
      then show ?thesis using "1.prems"(1) by simp
    qed
    then have nn: "\<forall>x \<in> set ?r. 0 \<le> x" by auto
    have rest: "\<forall>x \<in> set (drop 8 a). 0 \<le> x" using "1.prems"(4) by (auto dest: in_set_dropD)
    show ?thesis
      using "1.IH" [OF False "1.prems"(1) len nn rest] False
      by (simp add: unrolled_add.simps [of rnd r a])
  qed
qed

lemma pairwise_sum_nonneg:
  "\<forall>x. 0 \<le> x \<longrightarrow> 0 \<le> rnd x \<Longrightarrow> \<forall>x \<in> set a. 0 \<le> x \<Longrightarrow> 0 \<le> pairwise_sum rnd a"
proof (induction rnd a rule: pairwise_sum.induct)
  case (1 rnd a)
  note sign = "1.prems"(1)
  note nonneg = "1.prems"(2)
  show ?case
  proof (cases "length a < 8")
    case True
    have "0 \<le> foldl (\<lambda>res x. rnd (res + x)) 0 a"
      using sign _ nonneg by (rule foldl_add_nonneg) simp
    then show ?thesis using True by (simp add: pairwise_sum.simps [of rnd a])
  next
    case False
    show ?thesis
    proof (cases "length a \<le> 128")
      case True
      obtain r rest where u: "unrolled_add rnd (take 8 a) (drop 8 a) = (r, rest)"
        by (cases "unrolled_add rnd (take 8 a) (drop 8 a)")
      have l8: "length (take 8 a) = 8" using False by simp
      have nt: "\<forall>x \<in> set (take 8 a). 0 \<le> x" using nonneg by (auto dest: in_set_takeD)
      have nd: "\<forall>x \<in> set (drop 8 a). 0 \<le> x" using nonneg by (auto dest: in_set_dropD)
      have "length (fst (unrolled_add rnd (take 8 a) (drop 8 a))) = 8
            \<and> (\<forall>x \<in> set (fst (unrolled_add rnd (take 8 a) (drop 8 a))). 0 \<le> x)
            \<and> (\<forall>x \<in> set (snd (unrolled_add rnd (take 8 a) (drop 8 a))). 0 \<le> x)"
        using sign l8 nt nd by (rule unrolled_add_nonneg)
      then have inv: "length r = 8" "\<forall>x \<in> set r. 0 \<le> x" "\<forall>x \<in> set rest. 0 \<le> x"
        unfolding u by simp_all
      have nth: "0 \<le> r ! i" if "i < 8" for i using inv that by simp
      have pair: "0 \<le> rnd (x + y)" if "0 \<le> x" "0 \<le> y" for x y using sign that by simp
      have "0 \<le> rnd (rnd (rnd (r ! 0 + r ! 1) + rnd (r ! 2 + r ! 3))
                     + rnd (rnd (r ! 4 + r ! 5) + rnd (r ! 6 + r ! 7)))"
        by (intro pair nth) simp_all
      with sign have "0 \<le> foldl (\<lambda>res x. rnd (res + x))
                     (rnd (rnd (rnd (r ! 0 + r ! 1) + rnd (r ! 2 + r ! 3))
                     + rnd (rnd (r ! 4 + r ! 5) + rnd (r ! 6 + r ! 7)))) rest"
        using inv(3) by (rule foldl_add_nonneg)
      then show ?thesis
        using False True u by (simp add: pairwise_sum.simps [of rnd a])
    next
      case big: False
      let ?k = "length a div 2 - length a div 2 mod 8"
      have "\<forall>x \<in> set (take ?k a). 0 \<le> x" using nonneg by (auto dest: in_set_takeD)
      then have "0 \<le> pairwise_sum rnd (take ?k a)"
        using "1.IH"(1) [OF False big sign] by simp
      moreover have "\<forall>x \<in> set (drop ?k a). 0 \<le> x" using nonneg by (auto dest: in_set_dropD)
      then have "0 \<le> pairwise_sum rnd (drop ?k a)"
        using "1.IH"(2) [OF False big sign] by simp
      ultimately have "0 \<le> rnd (pairwise_sum rnd (take ?k a) + pairwise_sum rnd (drop ?k a))"
        using sign by simp
      then show ?thesis using False big by (simp add: pairwise_sum.simps [of rnd a])
    qed
  qed
qed

lemma umr_sum_nonneg:
  "\<forall>x. 0 \<le> x \<longrightarrow> 0 \<le> rnd x \<Longrightarrow> \<forall>x \<in> set a. 0 \<le> x \<Longrightarrow> 0 \<le> umr_sum rnd a"
  using pairwise_sum_nonneg [of rnd a] by (simp add: umr_sum_def)

lemma np_std_nonneg:
  assumes "\<forall>x. 0 \<le> x \<longrightarrow> 0 \<le> rnd x"
  shows "0 \<le> np_std rnd a"
proof -
  let ?mean = "rnd (umr_sum rnd a / real (length a))"
  let ?x2 = "map (\<lambda>d. rnd (d * d)) (map (\<lambda>v. rnd (v - ?mean)) a)"
  have "\<forall>x \<in> set ?x2. 0 \<le> x" using assms by auto
  with assms have "0 \<le> umr_sum rnd ?x2" by (rule umr_sum_nonneg)
  then have "0 \<le> rnd (umr_sum rnd ?x2 / real (length a))" using assms by simp
  then have "0 \<le> rnd (sqrt (rnd (umr_sum rnd ?x2 / real (length a))))" using assms by simp
  then show ?thesis by (simp add: np_std_def Let_def)
qed

lemma mean_between:
  fixes xs :: "real list"
  assumes "xs \<noteq> []"
  shows "Min (set xs) \<le> sum_list xs / real (length xs)"
    and "sum_list xs / real (length xs) \<le> Max (set xs)"
proof -
  have n: "0 < real (length xs)" using assms by simp
  have "sum_list (map (\<lambda>x. Min (set xs)) xs) \<le> sum_list (map (\<lambda>x. x) xs)"
    by (rule sum_list_mono) simp
  then have "real (length xs) * Min (set xs) \<le> sum_list xs"
    by (simp add: sum_list_triv)
  then show "Min (set xs) \<le> sum_list xs / real (length xs)"
    using n by (simp add: field_simps)
  have "sum_list (map (\<lambda>x. x) xs) \<le> sum_list (map (\<lambda>x. Max (set xs)) xs)"
    by (rule sum_list_mono) simp
  then have "sum_list xs \<le> real (length xs) * Max (set xs)"
    by (simp add: sum_list_triv)
  then show "sum_list xs / real (length xs) \<le> Max (set xs)"
    using n by (simp add: field_simps)
qed


lemma binary64_of_int:
  assumes "\<bar>n\<bar> < 2 ^ 53"
  shows "binary64 (of_int n) = of_int n"
proof (cases "n = 0")
  case True
  then show ?thesis by (simp add: binary64_def)
next
  case False
  define x where "x = real_of_int n"
  define e where "e = expo \<bar>x\<bar>"
  have x0: "x \<noteq> 0" using False by (simp add: x_def)
  have "1 \<le> \<bar>n\<bar>" using False by simp
  then have "real_of_int 1 \<le> real_of_int \<bar>n\<bar>" by (simp only: of_int_le_iff)
  then have a1: "1 \<le> \<bar>x\<bar>" by (simp add: x_def)
  have "real_of_int \<bar>n\<bar> < real_of_int (2 ^ 53)" using assms by (simp only: of_int_less_iff)
  then have a2: "\<bar>x\<bar> < 2 powi 53" by (simp add: x_def)
  have "0 < \<bar>x\<bar>" using a1 by simp
  then have "- 1022 \<le> e" unfolding e_def by (rule expo_ge)
  have e0: "0 \<le> e" using a1 expo_up_bounds [of "\<bar>x\<bar>"] by (simp add: e_def expo_def)
  have "2 powi e \<le> \<bar>x\<bar>" using a1 expo_up_bounds [of "\<bar>x\<bar>"] by (simp add: e_def expo_def)
  then have lt: "(2::real) powi e < 2 powi 53" using a2 by simp
  have e52: "e \<le> 52"
  proof (rule ccontr)
    assume "\<not> e \<le> 52"
    then have "53 \<le> e" by simp
    then have "(2::real) powi 53 \<le> 2 powi e" by (intro power_int_increasing) simp_all
    then show False using lt by simp
  qed
  define k where "k = nat (52 - e)"
  have ek: "e - 52 = - int k" using e52 by (simp add: k_def)
  have u: "ulp x = 1 / 2 ^ k"
    unfolding ulp_def e_def [symmetric] ek by (simp add: power_int_minus field_simps)
  have "x / ulp x = real_of_int (n * 2 ^ k)" unfolding u by (simp add: x_def)
  then have "round_half_even (x / ulp x) = n * 2 ^ k" by (simp only: round_half_even_of_int)
  then have "binary64 x = real_of_int (n * 2 ^ k) * ulp x" using x0 by (simp add: binary64_ulp)
  also have "\<dots> = x" unfolding u by (simp add: x_def)
  finally show ?thesis by (simp add: x_def)
qed

lemma binary64_numeral [simp]:
  "numeral k < (9007199254740992::int) \<Longrightarrow> binary64 (numeral k) = numeral k"
  using binary64_of_int [of "numeral k"] by simp

lemma binary64_zero [simp]: "binary64 0 = 0"
  by (simp add: binary64_def)

lemma np_mean_small:
  "length a < 8 \<Longrightarrow>
     np_mean rnd a = rnd (rnd (0 + foldl (\<lambda>res x. rnd (res + x)) 0 a) / real (length a))"
  "length a < 8 \<Longrightarrow> umr_sum rnd a = rnd (0 + foldl (\<lambda>res x. rnd (res + x)) 0 a)"
  by (simp_all add: np_mean_def umr_sum_def pairwise_sum.simps [of rnd a])

text \<open>On whole numbers below \<open>2 ^ 53\<close> no addition rounds, so the sum is exact.\<close>

lemma binary64_whole:
  assumes "x \<in> \<nat>" "x < 2 ^ 53"
  shows "binary64 x = x"
proof -
  obtain k :: nat where k: "x = real k" using assms(1) by (auto elim: Nats_cases)
  have "real_of_int (int k) < real_of_int (2 ^ 53)" using assms(2) k by simp
  then have "int k < 2 ^ 53" by (simp only: of_int_less_iff)
  then have "\<bar>int k\<bar> < 2 ^ 53" by simp
  then have "binary64 (of_int (int k)) = of_int (int k)" by (rule binary64_of_int)
  then show ?thesis using k by simp
qed

lemma whole_nonneg: "x \<in> \<nat> \<Longrightarrow> 0 \<le> (x::real)"
  by (auto elim: Nats_cases)

lemma sum_list_whole: "\<forall>x \<in> set a. x \<in> \<nat> \<Longrightarrow> sum_list a \<in> (\<nat> :: real set)"
  by (induction a) (simp_all add: Nats_add)

lemma sum_list_whole_nonneg: "\<forall>x \<in> set a. x \<in> \<nat> \<Longrightarrow> 0 \<le> (sum_list a :: real)"
  by (rule whole_nonneg) (rule sum_list_whole)

lemma take_drop_sum: "sum_list (take k a) + sum_list (drop k a) = (sum_list a :: real)"
proof -
  have "sum_list (take k a @ drop k a) = sum_list a" by simp
  then show ?thesis by (simp only: sum_list_append)
qed

lemma foldl_add_whole:
  "acc \<in> \<nat> \<Longrightarrow> \<forall>x \<in> set a. x \<in> \<nat> \<Longrightarrow> acc + sum_list a < 2 ^ 53 \<Longrightarrow>
     foldl (\<lambda>res x. binary64 (res + x)) acc a = acc + sum_list a"
proof (induction a arbitrary: acc)
  case Nil
  then show ?case by simp
next
  case (Cons x a)
  have x: "x \<in> \<nat>" and a: "\<forall>y \<in> set a. y \<in> \<nat>" using Cons.prems(2) by simp_all
  have "0 \<le> sum_list a" using a by (rule sum_list_whole_nonneg)
  then have "acc + x < 2 ^ 53" using Cons.prems(3) by simp
  then have b: "binary64 (acc + x) = acc + x"
    using Cons.prems(1) x by (intro binary64_whole Nats_add)
  have "foldl (\<lambda>res x. binary64 (res + x)) (acc + x) a = acc + x + sum_list a"
    using Cons.prems(1) x a Cons.prems(3) by (intro Cons.IH Nats_add) (simp_all add: add.assoc)
  then show ?case by (simp add: b add.assoc)
qed

lemma map2_add_whole:
  "length r = length b \<Longrightarrow> \<forall>x \<in> set r. x \<in> \<nat> \<Longrightarrow> \<forall>x \<in> set b. x \<in> \<nat> \<Longrightarrow>
   sum_list r + sum_list b < 2 ^ 53 \<Longrightarrow>
     (\<forall>x \<in> set (map2 (\<lambda>p q. binary64 (p + q)) r b). x \<in> \<nat>)
     \<and> sum_list (map2 (\<lambda>p q. binary64 (p + q)) r b) = sum_list r + sum_list b"
proof (induction r b rule: list_induct2)
  case Nil
  then show ?case by simp
next
  case (Cons p r q b)
  have p: "p \<in> \<nat>" and q: "q \<in> \<nat>" and r: "\<forall>x \<in> set r. x \<in> \<nat>" and b: "\<forall>x \<in> set b. x \<in> \<nat>"
    using Cons.prems by simp_all
  have nr: "0 \<le> sum_list r" using r by (rule sum_list_whole_nonneg)
  have nb: "0 \<le> sum_list b" using b by (rule sum_list_whole_nonneg)
  have "p + q < 2 ^ 53" using Cons.prems(3) nr nb by simp
  then have e: "binary64 (p + q) = p + q" using p q by (intro binary64_whole Nats_add)
  have "sum_list r + sum_list b < 2 ^ 53"
    using Cons.prems(3) whole_nonneg [OF p] whole_nonneg [OF q] by simp
  then have ih: "(\<forall>x \<in> set (map2 (\<lambda>p q. binary64 (p + q)) r b). x \<in> \<nat>)
     \<and> sum_list (map2 (\<lambda>p q. binary64 (p + q)) r b) = sum_list r + sum_list b"
    using r b by (intro Cons.IH)
  show ?case using ih p q by (simp add: e Nats_add)
qed

lemma unrolled_add_whole:
  "length r = 8 \<Longrightarrow> \<forall>x \<in> set r. x \<in> \<nat> \<Longrightarrow> \<forall>x \<in> set a. x \<in> \<nat> \<Longrightarrow>
   sum_list r + sum_list a < 2 ^ 53 \<Longrightarrow>
     length (fst (unrolled_add binary64 r a)) = 8
     \<and> (\<forall>x \<in> set (fst (unrolled_add binary64 r a)). x \<in> \<nat>)
     \<and> (\<forall>x \<in> set (snd (unrolled_add binary64 r a)). x \<in> \<nat>)
     \<and> sum_list (fst (unrolled_add binary64 r a)) + sum_list (snd (unrolled_add binary64 r a))
         = sum_list r + sum_list a"
proof (induction "binary64" r a rule: unrolled_add.induct)
  case (1 r a)
  show ?case
  proof (cases "length a < 8")
    case True
    then show ?thesis using "1.prems" by (simp add: unrolled_add.simps [of binary64 r a])
  next
    case False
    let ?b = "take 8 a"
    let ?r = "map2 (\<lambda>p q. binary64 (p + q)) r ?b"
    have lb: "length r = length ?b" using False "1.prems"(1) by simp
    have wb: "\<forall>x \<in> set ?b. x \<in> \<nat>" using "1.prems"(3) by (auto dest: in_set_takeD)
    have wd: "\<forall>x \<in> set (drop 8 a). x \<in> \<nat>" using "1.prems"(3) by (auto dest: in_set_dropD)
    have split: "sum_list ?b + sum_list (drop 8 a) = sum_list a" by (rule take_drop_sum)
    have nd: "0 \<le> sum_list (drop 8 a)" using wd by (rule sum_list_whole_nonneg)
    have "sum_list r + sum_list ?b < 2 ^ 53" using "1.prems"(4) split nd by simp
    then have m: "(\<forall>x \<in> set ?r. x \<in> \<nat>) \<and> sum_list ?r = sum_list r + sum_list ?b"
      using lb "1.prems"(2) wb by (intro map2_add_whole)
    have len: "length ?r = 8" using False "1.prems"(1) by simp
    have bound: "sum_list ?r + sum_list (drop 8 a) < 2 ^ 53" using m "1.prems"(4) split by simp
    have ih: "length (fst (unrolled_add binary64 ?r (drop 8 a))) = 8
     \<and> (\<forall>x \<in> set (fst (unrolled_add binary64 ?r (drop 8 a))). x \<in> \<nat>)
     \<and> (\<forall>x \<in> set (snd (unrolled_add binary64 ?r (drop 8 a))). x \<in> \<nat>)
     \<and> sum_list (fst (unrolled_add binary64 ?r (drop 8 a)))
           + sum_list (snd (unrolled_add binary64 ?r (drop 8 a)))
         = sum_list ?r + sum_list (drop 8 a)"
      using False len _ wd bound by (rule "1.hyps") (simp add: m)
    have u: "unrolled_add binary64 r a = unrolled_add binary64 ?r (drop 8 a)"
      using False by (simp add: unrolled_add.simps [of binary64 r a])
    show ?thesis unfolding u using ih m split by simp
  qed
qed


lemma list_of_length_8:
  assumes "length r = 8"
  obtains r0 r1 r2 r3 r4 r5 r6 r7 where "r = [r0, r1, r2, r3, r4, r5, r6, r7]"
proof -
  have "length r = Suc (Suc (Suc (Suc (Suc (Suc (Suc (Suc 0)))))))" using assms by simp
  then show ?thesis using that by (auto simp: length_Suc_conv)
qed

lemma combine_whole:
  assumes "length r = 8" "\<forall>x \<in> set r. x \<in> \<nat>" "sum_list r < 2 ^ 53"
  shows "binary64 (binary64 (binary64 (r ! 0 + r ! 1) + binary64 (r ! 2 + r ! 3))
                  + binary64 (binary64 (r ! 4 + r ! 5) + binary64 (r ! 6 + r ! 7)))
           = sum_list r"
proof -
  obtain r0 r1 r2 r3 r4 r5 r6 r7 where r: "r = [r0, r1, r2, r3, r4, r5, r6, r7]"
    using assms(1) by (rule list_of_length_8)
  have w: "r0 \<in> \<nat>" "r1 \<in> \<nat>" "r2 \<in> \<nat>" "r3 \<in> \<nat>" "r4 \<in> \<nat>" "r5 \<in> \<nat>" "r6 \<in> \<nat>" "r7 \<in> \<nat>"
    using assms(2) by (simp_all add: r)
  note n = w [THEN whole_nonneg]
  have s: "r0 + r1 + r2 + r3 + r4 + r5 + r6 + r7 < 2 ^ 53" using assms(3) by (simp add: r)
  have a: "binary64 (r0 + r1) = r0 + r1" using w n s by (intro binary64_whole Nats_add) simp_all
  have b: "binary64 (r2 + r3) = r2 + r3" using w n s by (intro binary64_whole Nats_add) simp_all
  have c: "binary64 (r4 + r5) = r4 + r5" using w n s by (intro binary64_whole Nats_add) simp_all
  have d: "binary64 (r6 + r7) = r6 + r7" using w n s by (intro binary64_whole Nats_add) simp_all
  have ab: "binary64 (r0 + r1 + (r2 + r3)) = r0 + r1 + (r2 + r3)"
    using w n s by (intro binary64_whole Nats_add) simp_all
  have cd: "binary64 (r4 + r5 + (r6 + r7)) = r4 + r5 + (r6 + r7)"
    using w n s by (intro binary64_whole Nats_add) simp_all
  have all: "binary64 (r0 + r1 + (r2 + r3) + (r4 + r5 + (r6 + r7)))
               = r0 + r1 + (r2 + r3) + (r4 + r5 + (r6 + r7))"
    using w n s by (intro binary64_whole Nats_add) simp_all
  show ?thesis by (simp add: r a b c d ab cd all)
qed

lemma pairwise_sum_whole:
  "\<forall>x \<in> set a. x \<in> \<nat> \<Longrightarrow> sum_list a < 2 ^ 53 \<Longrightarrow> pairwise_sum binary64 a = sum_list a"
proof (induction "binary64" a rule: pairwise_sum.induct)
  case (1 a)
  note whole = "1.prems"(1)
  note bound = "1.prems"(2)
  show ?case
  proof (cases "length a < 8")
    case True
    have "foldl (\<lambda>res x. binary64 (res + x)) 0 a = 0 + sum_list a"
      using whole bound by (intro foldl_add_whole) simp_all
    then show ?thesis using True by (simp add: pairwise_sum.simps [of binary64 a])
  next
    case False
    show ?thesis
    proof (cases "length a \<le> 128")
      case True
      obtain r rest where u: "unrolled_add binary64 (take 8 a) (drop 8 a) = (r, rest)"
        by (cases "unrolled_add binary64 (take 8 a) (drop 8 a)")
      have l8: "length (take 8 a) = 8" using False by simp
      have wt: "\<forall>x \<in> set (take 8 a). x \<in> \<nat>" using whole by (auto dest: in_set_takeD)
      have wd: "\<forall>x \<in> set (drop 8 a). x \<in> \<nat>" using whole by (auto dest: in_set_dropD)
      have "sum_list (take 8 a) + sum_list (drop 8 a) < 2 ^ 53"
        using bound by (simp only: take_drop_sum)
      with l8 wt wd have
        "length (fst (unrolled_add binary64 (take 8 a) (drop 8 a))) = 8
         \<and> (\<forall>x \<in> set (fst (unrolled_add binary64 (take 8 a) (drop 8 a))). x \<in> \<nat>)
         \<and> (\<forall>x \<in> set (snd (unrolled_add binary64 (take 8 a) (drop 8 a))). x \<in> \<nat>)
         \<and> sum_list (fst (unrolled_add binary64 (take 8 a) (drop 8 a)))
             + sum_list (snd (unrolled_add binary64 (take 8 a) (drop 8 a)))
             = sum_list (take 8 a) + sum_list (drop 8 a)"
        by (rule unrolled_add_whole)
      then have inv: "length r = 8" "\<forall>x \<in> set r. x \<in> \<nat>" "\<forall>x \<in> set rest. x \<in> \<nat>"
        "sum_list r + sum_list rest = sum_list a"
        unfolding u by (simp_all add: take_drop_sum)
      have nrest: "0 \<le> sum_list rest" using inv(3) by (rule sum_list_whole_nonneg)
      have "sum_list r < 2 ^ 53" using inv(4) bound nrest by simp
      with inv(1,2) have c: "binary64 (binary64 (binary64 (r ! 0 + r ! 1) + binary64 (r ! 2 + r ! 3))
                  + binary64 (binary64 (r ! 4 + r ! 5) + binary64 (r ! 6 + r ! 7)))
           = sum_list r"
        by (rule combine_whole)
      have "foldl (\<lambda>res x. binary64 (res + x)) (sum_list r) rest = sum_list r + sum_list rest"
        using inv(2,3,4) bound by (intro foldl_add_whole sum_list_whole) simp_all
      then show ?thesis
        using False True
        by (simp add: pairwise_sum.simps [of binary64 a] u c inv(4) del: One_nat_def)
    next
      case big: False
      let ?k = "length a div 2 - length a div 2 mod 8"
      have wt: "\<forall>x \<in> set (take ?k a). x \<in> \<nat>" using whole by (auto dest: in_set_takeD)
      have wd: "\<forall>x \<in> set (drop ?k a). x \<in> \<nat>" using whole by (auto dest: in_set_dropD)
      have split: "sum_list (take ?k a) + sum_list (drop ?k a) = sum_list a"
        by (rule take_drop_sum)
      have nt: "0 \<le> sum_list (take ?k a)" using wt by (rule sum_list_whole_nonneg)
      have nd: "0 \<le> sum_list (drop ?k a)" using wd by (rule sum_list_whole_nonneg)
      have "sum_list (take ?k a) < 2 ^ 53" using split nd bound by simp
      with False big wt have t: "pairwise_sum binary64 (take ?k a) = sum_list (take ?k a)"
        by (rule "1.hyps"(1))
      have "sum_list (drop ?k a) < 2 ^ 53" using split nt bound by simp
      with False big wd have d: "pairwise_sum binary64 (drop ?k a) = sum_list (drop ?k a)"
        by (rule "1.hyps"(2))
      have "binary64 (sum_list (take ?k a) + sum_list (drop ?k a))
              = sum_list (take ?k a) + sum_list (drop ?k a)"
        using wt wd bound split by (intro binary64_whole Nats_add sum_list_whole) simp_all
      then show ?thesis
        using False big split by (simp add: pairwise_sum.simps [of binary64 a] t d)
    qed
  qed
qed

lemma umr_sum_whole:
  assumes "\<forall>x \<in> set a. x \<in> \<nat>" "sum_list a < 2 ^ 53"
  shows "umr_sum binary64 a = sum_list a"
proof -
  have "binary64 (sum_list a) = sum_list a"
    using assms by (intro binary64_whole sum_list_whole)
  then show ?thesis using assms by (simp add: umr_sum_def pairwise_sum_whole)
qed

lemma sum_list_marks_bound:
  assumes "\<forall>x \<in> set a. x \<le> (100::real)" "length a \<le> 2 ^ 46"
  shows "sum_list a < 2 ^ 53"
proof -
  have "sum_list (map (\<lambda>x. x) a) \<le> sum_list (map (\<lambda>x. 100) a)"
    using assms(1) by (intro sum_list_mono) simp
  then have "sum_list a \<le> real (length a) * 100" by (simp add: sum_list_triv)
  also have "\<dots> \<le> real (2 ^ 46) * 100"
  proof -
    have "real (length a) \<le> real (2 ^ 46)" using assms(2) by (simp only: of_nat_le_iff)
    then show ?thesis by (rule mult_right_mono) simp
  qed
  also have "\<dots> < 2 ^ 53" by simp
  finally show ?thesis .
qed

subsection \<open>Grades\<close>

text \<open>
  C1. The grade is a total function of the mean that checks the thresholds 90, 80, 70, 60, 50
  from the top, each inclusive at its lower bound: at least 90 gives A+, otherwise at least 80
  gives A, otherwise at least 70 gives B, otherwise at least 60 gives C, otherwise at least 50
  gives D, and anything else F. In particular 90.0 gives A+, 89.999 gives A, 50.0 gives D and
  49.999 gives F.
\<close>

theorem calculate_grade_thresholds:
  "calculate_grade avg =
     (if 90 \<le> avg then ''A+''
      else if 80 \<le> avg then ''A''
      else if 70 \<le> avg then ''B''
      else if 60 \<le> avg then ''C''
      else if 50 \<le> avg then ''D''
      else ''F'')
   \<and> calculate_grade 90 = ''A+''
   \<and> calculate_grade (89999 / 1000) = ''A''
   \<and> calculate_grade 50 = ''D''
   \<and> calculate_grade (49999 / 1000) = ''F''"
  by (simp add: calculate_grade_def)

subsection \<open>The record store\<close>

lemma add_student_inserted:
  assumes "fst (add_student today m r n a c) = Inr True"
  shows "r \<notin> set (map roll_no (students_tbl (tables m)))"
    and "tables (snd (add_student today m r n a c)) =
           (tables m)\<lparr>students_tbl := students_tbl (tables m) @
             [\<lparr>roll_no = r, name = n, age = a, class_name = c, created_date = today\<rparr>]\<rparr>"
  using assms by (auto simp: add_student_def split: if_splits)

text \<open>What holds of a duplicate on the code: the first rejected call returns False, every
  call with a roll number that is present leaves the tables as they are, and the rejected
  call leaves the lock behind.\<close>

lemma add_student_duplicate:
  assumes "r \<in> set (map roll_no (students_tbl (tables m)))"
  shows "tables (snd (add_student today m r n a c)) = tables m"
    and "- (2 ^ 63) \<le> a \<Longrightarrow> a < 2 ^ 63 \<Longrightarrow> write_lock_leaked m = False \<Longrightarrow>
           add_student today m r n a c = (Inr False, m\<lparr>write_lock_leaked := True\<rparr>)"
  using assms by (auto simp: add_student_def)

lemma add_student_locked:
  "- (2 ^ 63) \<le> a \<Longrightarrow> a < 2 ^ 63 \<Longrightarrow> write_lock_leaked m \<Longrightarrow>
     add_student today m r n a c = (Inl OperationalError, m)"
  by (auto simp: add_student_def)

text \<open>
  C2. The property: for every store and every roll number already present, \<open>add_student\<close>
  returns False and leaves the store unchanged, so that after two calls with the same roll
  number the store holds exactly one student with it. On the code the first duplicate is
  rejected so, but its connection stays open: inserted into a new store, student S1 is added;
  the second call with S1 returns False; the third call with S1, which is present, raises
  OperationalError instead of returning False, and returns False again only once the garbage
  collector has run. The tables hold exactly one student S1 throughout.
\<close>

theorem add_student_duplicate_leaks_lock:
  "fst (add_student ''2024-01-01'' database_manager ''S1'' ''Asha'' 20 ''10A'') = Inr True
   \<and> fst (add_student ''2024-01-02'' manager_after_insert ''S1'' ''Ravi'' 21 ''10B'') = Inr False
   \<and> ''S1'' \<in> set (map roll_no (students_tbl (tables manager_after_duplicate)))
   \<and> fst (add_student ''2024-01-03'' manager_after_duplicate ''S1'' ''Mira'' 22 ''10C'')
       = Inl OperationalError
   \<and> fst (add_student ''2024-01-03'' (collect_garbage manager_after_duplicate)
            ''S1'' ''Mira'' 22 ''10C'') = Inr False
   \<and> tables (snd (add_student ''2024-01-03'' manager_after_duplicate ''S1'' ''Mira'' 22 ''10C''))
       = tables manager_after_insert
   \<and> get_all_students (tables manager_after_duplicate)
       = [\<lparr>roll_no = ''S1'', name = ''Asha'', age = 20, class_name = ''10A'',
           created_date = ''2024-01-01''\<rparr>]"
  by (simp add: manager_after_duplicate_def manager_after_insert_def database_manager_def
        create_tables_def add_student_def collect_garbage_def get_all_students_def)

lemma set_get_all_marks:
  "set (get_all_marks d) =
     {(roll_no st, name st, subject e, marks e) | st e.
        st \<in> set (students_tbl d) \<and> e \<in> set (marks_tbl d) \<and> roll_no st = entry_roll_no e}"
  by (force simp: get_all_marks_def)

lemma get_all_marks_orphan:
  assumes "r \<notin> set (map roll_no (students_tbl d))"
  shows "get_all_marks (snd (add_marks today d r s m e)) = get_all_marks d"
proof -
  have "\<And>st. st \<in> set (students_tbl d) \<Longrightarrow> roll_no st \<noteq> r" using assms by auto
  then show ?thesis
    by (simp add: get_all_marks_def add_marks_def Let_def cong: map_cong)
qed






text \<open>
  C6. Round trip: after a successful \<open>add_student\<close> the list of students holds, for the
  roll number supplied, exactly one record, whose roll number, name, age and class are the
  values supplied and whose creation date is the date of the insertion; and the list of
  students is sorted ascending by roll number.
\<close>

theorem add_student_round_trip:
  assumes "fst (add_student today m r n a c) = Inr True"
  shows "filter (\<lambda>s. roll_no s = r)
           (get_all_students (tables (snd (add_student today m r n a c))))
           = [\<lparr>roll_no = r, name = n, age = a, class_name = c, created_date = today\<rparr>]
       \<and> sorted (map roll_no (get_all_students (tables (snd (add_student today m r n a c)))))"
proof -
  have fresh: "r \<notin> set (map roll_no (students_tbl (tables m)))"
    using assms by (rule add_student_inserted)
  then have "filter (\<lambda>s. roll_no s = r) (students_tbl (tables m)) = []"
    by (auto simp: filter_empty_conv)
  then have "filter (\<lambda>s. roll_no s = r)
           (get_all_students (tables (snd (add_student today m r n a c))))
           = [\<lparr>roll_no = r, name = n, age = a, class_name = c, created_date = today\<rparr>]"
    by (simp add: add_student_inserted(2) [OF assms] get_all_students_def filter_sort)
  moreover have
    "sorted (map roll_no (get_all_students (tables (snd (add_student today m r n a c)))))"
    by (simp add: get_all_students_def)
  ultimately show ?thesis by simp
qed

theorem add_student_round_trip_witness:
  "fst (add_student ''2024-01-01''
          \<lparr>tables = \<lparr>students_tbl = [\<lparr>roll_no = ''S2'', name = ''Ravi'', age = 21,
                        class_name = ''10A'', created_date = ''2023-12-31''\<rparr>],
                      marks_tbl = [], marks_seq = 0\<rparr>, write_lock_leaked = False\<rparr>
          ''S1'' ''Asha'' 20 ''10A'') = Inr True
   \<and> filter (\<lambda>s. roll_no s = ''S1'') (get_all_students (tables (snd (add_student ''2024-01-01''
          \<lparr>tables = \<lparr>students_tbl = [\<lparr>roll_no = ''S2'', name = ''Ravi'', age = 21,
                        class_name = ''10A'', created_date = ''2023-12-31''\<rparr>],
                      marks_tbl = [], marks_seq = 0\<rparr>, write_lock_leaked = False\<rparr>
          ''S1'' ''Asha'' 20 ''10A''))))
       = [\<lparr>roll_no = ''S1'', name = ''Asha'', age = 20, class_name = ''10A'',
           created_date = ''2024-01-01''\<rparr>]"
  using add_student_round_trip [of "''2024-01-01''"
          "\<lparr>tables = \<lparr>students_tbl = [\<lparr>roll_no = ''S2'', name = ''Ravi'', age = 21,
                        class_name = ''10A'', created_date = ''2023-12-31''\<rparr>],
                      marks_tbl = [], marks_seq = 0\<rparr>, write_lock_leaked = False\<rparr>"
          "''S1''" "''Asha''" 20 "''10A''"]
  by (simp add: add_student_def)

text \<open>
  C10. \<open>get_student_marks\<close> returns all mark entries of the roll number, each once, sorted
  ascending by subject, whether or not a student with that roll number exists. In
  particular a mark entry added for a roll number without student is returned by it, though
  no row of the joined query carries that roll number.
\<close>

theorem get_student_marks_ignores_students:
  "mset (get_student_marks d r)
     = mset (map (\<lambda>m. (subject m, marks m, exam_date m))
               (filter (\<lambda>m. entry_roll_no m = r) (marks_tbl d)))
   \<and> sorted (map fst (get_student_marks d r))
   \<and> (r \<notin> set (map roll_no (students_tbl d)) \<longrightarrow>
        (s, m, case e of None \<Rightarrow> today | Some x \<Rightarrow> x)
          \<in> set (get_student_marks (snd (add_marks today d r s m e)) r)
        \<and> (\<forall>row \<in> set (get_all_marks (snd (add_marks today d r s m e))). fst row \<noteq> r))"
proof (intro conjI impI)
  show "mset (get_student_marks d r)
     = mset (map (\<lambda>m. (subject m, marks m, exam_date m))
               (filter (\<lambda>m. entry_roll_no m = r) (marks_tbl d)))"
    by (simp add: get_student_marks_def)
  show "sorted (map fst (get_student_marks d r))"
    by (simp add: get_student_marks_def)
next
  assume a: "r \<notin> set (map roll_no (students_tbl d))"
  show "(s, m, case e of None \<Rightarrow> today | Some x \<Rightarrow> x)
          \<in> set (get_student_marks (snd (add_marks today d r s m e)) r)"
    by (simp add: get_student_marks_def add_marks_def Let_def)
  have "get_all_marks (snd (add_marks today d r s m e)) = get_all_marks d"
    using a by (rule get_all_marks_orphan)
  then show "\<forall>row \<in> set (get_all_marks (snd (add_marks today d r s m e))). fst row \<noteq> r"
    using a by (auto simp: set_get_all_marks)
qed

theorem get_student_marks_ignores_students_witness:
  "''S9'' \<notin> set (map roll_no (students_tbl create_tables))
   \<and> get_student_marks
        (snd (add_marks ''2024-01-01''
           (snd (add_marks ''2024-01-01'' create_tables ''S9'' ''Science'' 85 None))
           ''S9'' ''Math'' 95 None)) ''S9''
       = [(''Math'', 95, ''2024-01-01''), (''Science'', 85, ''2024-01-01'')]
   \<and> get_all_marks
        (snd (add_marks ''2024-01-01''
           (snd (add_marks ''2024-01-01'' create_tables ''S9'' ''Science'' 85 None))
           ''S9'' ''Math'' 95 None)) = []"
  using get_student_marks_ignores_students
    [where d = "snd (add_marks ''2024-01-01'' create_tables ''S9'' ''Science'' 85 None)"
       and r = "''S9''" and s = "''Math''" and m = 95 and e = None and today = "''2024-01-01''"]
  by (simp add: create_tables_def add_marks_def Let_def get_student_marks_def get_all_marks_def)

lemma concat_map_Nil: "concat (map (\<lambda>s. []) xs) = []"
  by (induction xs) simp_all

lemma get_all_marks_no_marks: "marks_tbl d = [] \<Longrightarrow> get_all_marks d = []"
  by (simp add: get_all_marks_def concat_map_Nil)

text \<open>
  C9. With no mark entry in the store the joined query is empty, and whenever the joined query
  is empty \<open>generate_analysis\<close> only shows the notice "No data available for analysis!" and
  \<open>generate_visualization\<close> only clears the chart frame and shows a warning: no report and
  no chart is computed, nothing fails, and the store is unchanged.
\<close>

theorem empty_dataset_notice:
  "(marks_tbl (db g) = [] \<longrightarrow> get_all_marks (db g) = [])
   \<and> (get_all_marks (db g) = [] \<longrightarrow>
        generate_analysis rnd g = g\<lparr>analysis_text := Notice ''No data available for analysis!''\<rparr>
        \<and> generate_visualization rnd g =
            g\<lparr>viz_canvas_frame := [],
              messagebox := messagebox g @
                [(''warning'', ''Warning'', ''No data available for visualization!'')]\<rparr>
        \<and> db (generate_analysis rnd g) = db g
        \<and> db (generate_visualization rnd g) = db g)"
  by (simp add: generate_analysis_def generate_visualization_def Let_def get_all_marks_no_marks)

theorem empty_dataset_notice_witness:
  "marks_tbl (db \<lparr>db = create_tables, chart_var = ''Grade Distribution'', analysis_text = Blank,
                  viz_canvas_frame = [EmptyFigure], messagebox = []\<rparr>) = []
   \<and> analysis_text (generate_analysis binary64
        \<lparr>db = create_tables, chart_var = ''Grade Distribution'', analysis_text = Blank,
         viz_canvas_frame = [EmptyFigure], messagebox = []\<rparr>)
       = Notice ''No data available for analysis!''
   \<and> generate_visualization binary64
        \<lparr>db = create_tables, chart_var = ''Grade Distribution'', analysis_text = Blank,
         viz_canvas_frame = [EmptyFigure], messagebox = []\<rparr>
       = \<lparr>db = create_tables, chart_var = ''Grade Distribution'', analysis_text = Blank,
          viz_canvas_frame = [],
          messagebox = [(''warning'', ''Warning'', ''No data available for visualization!'')]\<rparr>"
  using empty_dataset_notice
    [of "\<lparr>db = create_tables, chart_var = ''Grade Distribution'', analysis_text = Blank,
         viz_canvas_frame = [EmptyFigure], messagebox = []\<rparr>" binary64]
  by (simp add: create_tables_def)

subsection \<open>The reports\<close>

lemma scenario_rows:
  "get_all_marks (scenario_store today) =
     [(''S1'', ''Asha'', ''Math'', 95), (''S1'', ''Asha'', ''Science'', 85),
      (''S2'', ''Ravi'', ''Math'', 55), (''S2'', ''Ravi'', ''Science'', 45)]"
  by (simp add: scenario_store_def database_manager_def create_tables_def add_student_def
        add_marks_def Let_def get_all_marks_def)

text \<open>
  C3. In the store of the scenario (students S1 "Asha" and S2 "Ravi", marks S1/Math 95,
  S1/Science 85, S2/Math 55, S2/Science 45, added to an empty store) the report of
  \<open>generate_analysis\<close> has the overall mean 70, the average 90 and grade A+ for S1, the
  average 50 and grade D for S2, and the mean 75 for the subject Math; the grade distribution
  chart has exactly the labels A+ and D, each with count 1, the grades without student being
  left out.
\<close>

theorem scenario_report:
  "get_all_marks (scenario_store today) =
     [(''S1'', ''Asha'', ''Math'', 95), (''S1'', ''Asha'', ''Science'', 85),
      (''S2'', ''Ravi'', ''Math'', 55), (''S2'', ''Ravi'', ''Science'', 45)]
   \<and> (case analysis_text (generate_analysis binary64
              \<lparr>db = scenario_store today, chart_var = ''Grade Distribution'',
               analysis_text = Blank, viz_canvas_frame = [], messagebox = []\<rparr>) of
         Report rep \<Rightarrow>
           mean (overall rep) = 70
           \<and> map (\<lambda>l. (line_roll_no l, line_name l, line_avg l, line_grade l)) (student_wise rep)
               = [(''S1'', ''Asha'', 90, ''A+''), (''S2'', ''Ravi'', 50, ''D'')]
           \<and> map (\<lambda>l. (line_subject l, line_mean l)) (subject_wise rep)
               = [(''Math'', 75), (''Science'', 65)]
       | _ \<Rightarrow> False)
   \<and> viz_canvas_frame (generate_visualization binary64
          \<lparr>db = scenario_store today, chart_var = ''Grade Distribution'',
           analysis_text = Blank, viz_canvas_frame = [], messagebox = []\<rparr>)
       = [PieChart [''A+'', ''D''] [1, 1]]"
  by (simp add: scenario_rows generate_analysis_def generate_visualization_def Let_def
        overall_marks_statistics_def student_wise_performance_def subject_wise_statistics_def
        plot_grade_distribution_def count_grade_def np_mean_small calculate_grade_def)


lemma np_mean_between:
  assumes "xs \<noteq> []" "\<forall>x \<in> set xs. binary64 x = x" "umr_sum binary64 xs = sum_list xs"
  shows "np_min xs \<le> np_mean binary64 xs" "np_mean binary64 xs \<le> np_max xs"
proof -
  have "Min (set xs) \<in> set xs" "Max (set xs) \<in> set xs" using assms(1) by simp_all
  then have fixed: "binary64 (Min (set xs)) = Min (set xs)" "binary64 (Max (set xs)) = Max (set xs)"
    using assms(2) by simp_all
  have "binary64 (Min (set xs)) \<le> binary64 (sum_list xs / real (length xs))"
    by (intro binary64_mono mean_between assms(1))
  then show "np_min xs \<le> np_mean binary64 xs"
    by (simp add: np_min_def np_mean_def assms(3) fixed)
  have "binary64 (sum_list xs / real (length xs)) \<le> binary64 (Max (set xs))"
    by (intro binary64_mono mean_between assms(1))
  then show "np_mean binary64 xs \<le> np_max xs"
    by (simp add: np_max_def np_mean_def assms(3) fixed)
qed

text \<open>
  C7, as amended. For every non-empty sequence of marks the overall statistics satisfy
  minimum \<open>\<le>\<close> maximum and standard deviation \<open>\<ge>\<close> 0. They satisfy
  minimum \<open>\<le>\<close> mean \<open>\<le>\<close> maximum whenever the marks are binary64 values whose sum is
  computed without rounding error; this is the case for up to \<open>2 ^ 46\<close> whole-number marks
  between 0 and 100.
\<close>

theorem overall_statistics_bounds:
  assumes "all_marks \<noteq> []"
  shows "minimum (overall_marks_statistics binary64 all_marks data)
           \<le> maximum (overall_marks_statistics binary64 all_marks data)
       \<and> 0 \<le> standard_deviation (overall_marks_statistics binary64 all_marks data)
       \<and> ((\<forall>(r, n, s, m) \<in> set all_marks. binary64 m = m)
            \<and> umr_sum binary64 (map (\<lambda>(r, n, s, m). m) all_marks)
                = sum_list (map (\<lambda>(r, n, s, m). m) all_marks) \<longrightarrow>
            minimum (overall_marks_statistics binary64 all_marks data)
              \<le> mean (overall_marks_statistics binary64 all_marks data)
            \<and> mean (overall_marks_statistics binary64 all_marks data)
              \<le> maximum (overall_marks_statistics binary64 all_marks data))
       \<and> ((\<forall>(r, n, s, m) \<in> set all_marks. m \<in> \<nat> \<and> m \<le> 100)
            \<and> length all_marks \<le> 2 ^ 46 \<longrightarrow>
            minimum (overall_marks_statistics binary64 all_marks data)
              \<le> mean (overall_marks_statistics binary64 all_marks data)
            \<and> mean (overall_marks_statistics binary64 all_marks data)
              \<le> maximum (overall_marks_statistics binary64 all_marks data))"
proof -
  let ?xs = "map (\<lambda>(r, n, s, m). m) all_marks"
  have ne: "?xs \<noteq> []" using assms by simp
  have order: "np_min ?xs \<le> np_max ?xs" using ne by (simp add: np_min_def np_max_def)
  have dev: "0 \<le> np_std binary64 ?xs"
    by (rule np_std_nonneg) (simp add: binary64_nonneg)
  have general: "np_min ?xs \<le> np_mean binary64 ?xs \<and> np_mean binary64 ?xs \<le> np_max ?xs"
    if "\<forall>(r, n, s, m) \<in> set all_marks. binary64 m = m"
      and "umr_sum binary64 ?xs = sum_list ?xs"
  proof -
    have "\<forall>x \<in> set ?xs. binary64 x = x" using that(1) by auto
    with ne show ?thesis using that(2) by (simp add: np_mean_between)
  qed
  have whole: "np_min ?xs \<le> np_mean binary64 ?xs \<and> np_mean binary64 ?xs \<le> np_max ?xs"
    if "\<forall>(r, n, s, m) \<in> set all_marks. m \<in> \<nat> \<and> m \<le> 100" and "length all_marks \<le> 2 ^ 46"
  proof -
    have w: "\<forall>x \<in> set ?xs. x \<in> \<nat>" and le: "\<forall>x \<in> set ?xs. x \<le> 100" using that(1) by auto
    have "length ?xs \<le> 2 ^ 46" using that(2) by simp
    with le have bound: "sum_list ?xs < 2 ^ 53" by (rule sum_list_marks_bound)
    with w have exact_sum: "umr_sum binary64 ?xs = sum_list ?xs" by (rule umr_sum_whole)
    have "binary64 x = x" if "x \<in> set ?xs" for x
    proof -
      have "x \<in> \<nat>" "x \<le> 100" using that w le by blast+
      then show ?thesis by (intro binary64_whole) simp_all
    qed
    then have "\<forall>x \<in> set ?xs. binary64 x = x" by blast
    with ne show ?thesis using exact_sum by (simp add: np_mean_between)
  qed
  show ?thesis
    using order dev general whole by (simp add: overall_marks_statistics_def Let_def)
qed

theorem overall_statistics_bounds_witness:
  "[(''S1'', ''Asha'', ''Math'', 95), (''S1'', ''Asha'', ''Science'', 85),
    (''S2'', ''Ravi'', ''Math'', 55), (''S2'', ''Ravi'', ''Science'', 45 :: real)] \<noteq> []
   \<and> binary64 95 = 95 \<and> binary64 85 = 85 \<and> binary64 55 = 55 \<and> binary64 45 = 45
   \<and> umr_sum binary64 [95, 85, 55, 45] = sum_list [95, 85, 55, 45]
   \<and> (95 :: real) \<in> \<nat> \<and> (85 :: real) \<in> \<nat> \<and> (55 :: real) \<in> \<nat> \<and> (45 :: real) \<in> \<nat>
   \<and> minimum (overall_marks_statistics binary64
        [(''S1'', ''Asha'', ''Math'', 95), (''S1'', ''Asha'', ''Science'', 85),
         (''S2'', ''Ravi'', ''Math'', 55), (''S2'', ''Ravi'', ''Science'', 45)] [])
      \<le> mean (overall_marks_statistics binary64
        [(''S1'', ''Asha'', ''Math'', 95), (''S1'', ''Asha'', ''Science'', 85),
         (''S2'', ''Ravi'', ''Math'', 55), (''S2'', ''Ravi'', ''Science'', 45)] [])
   \<and> mean (overall_marks_statistics binary64
        [(''S1'', ''Asha'', ''Math'', 95), (''S1'', ''Asha'', ''Science'', 85),
         (''S2'', ''Ravi'', ''Math'', 55), (''S2'', ''Ravi'', ''Science'', 45)] [])
      \<le> maximum (overall_marks_statistics binary64
        [(''S1'', ''Asha'', ''Math'', 95), (''S1'', ''Asha'', ''Science'', 85),
         (''S2'', ''Ravi'', ''Math'', 55), (''S2'', ''Ravi'', ''Science'', 45)] [])
   \<and> 0 \<le> standard_deviation (overall_marks_statistics binary64
        [(''S1'', ''Asha'', ''Math'', 95), (''S1'', ''Asha'', ''Science'', 85),
         (''S2'', ''Ravi'', ''Math'', 55), (''S2'', ''Ravi'', ''Science'', 45)] [])"
proof -
  have s: "umr_sum binary64 [95, 85, 55, 45] = sum_list [95, 85, 55, 45]"
    by (simp add: np_mean_small)
  show ?thesis
    using overall_statistics_bounds
      [of "[(''S1'', ''Asha'', ''Math'', 95), (''S1'', ''Asha'', ''Science'', 85),
            (''S2'', ''Ravi'', ''Math'', 55), (''S2'', ''Ravi'', ''Science'', 45)]" "[]"] s
    by simp
qed

lemma float_999: "binary64 (999 / 10) = 3514918771674317 / 35184372088832"
  by code_simp

lemma mean_999:
  "np_mean binary64 [3514918771674317 / 35184372088832, 3514918771674317 / 35184372088832,
                     3514918771674317 / 35184372088832]
     = 7029837543348635 / 70368744177664"
  by code_simp

text \<open>
  C7 as stated does not hold of the binary64 computation: for three marks of 99.9 the sum
  99.9 + 99.9 + 99.9 is rounded up to 299.70000000000005 and its third to
  99.90000000000002, so the mean is greater than the maximum 99.9.
\<close>

theorem mean_exceeds_maximum_counterexample:
  "mark_99_9 = 3514918771674317 / 35184372088832
   \<and> maximum (overall_marks_statistics binary64 rounding_rows (foldl collect_row [] rounding_rows))
       = 3514918771674317 / 35184372088832
   \<and> mean (overall_marks_statistics binary64 rounding_rows (foldl collect_row [] rounding_rows))
       = 7029837543348635 / 70368744177664
   \<and> \<not> (minimum (overall_marks_statistics binary64 rounding_rows
                 (foldl collect_row [] rounding_rows))
            \<le> mean (overall_marks_statistics binary64 rounding_rows
                 (foldl collect_row [] rounding_rows))
          \<and> mean (overall_marks_statistics binary64 rounding_rows
                 (foldl collect_row [] rounding_rows))
            \<le> maximum (overall_marks_statistics binary64 rounding_rows
                 (foldl collect_row [] rounding_rows))
          \<and> 0 \<le> standard_deviation (overall_marks_statistics binary64 rounding_rows
                 (foldl collect_row [] rounding_rows)))"
  by (simp add: rounding_rows_def mark_99_9_def float_999 mean_999
        overall_marks_statistics_def Let_def np_max_def)















end
